theory Spec2Isabelle
  imports Complex_Main "HOL-Library.Word"
begin

unbundle bit_operations_syntax

chapter \<open>The program\<close>

section \<open>JavaScript strings and arrays\<close>

text \<open>
  A JavaScript string is a sequence of UTF-16 code units. The development reads a
  \<^typ>\<open>char\<close> as one code unit in the range 0..255 (Basic Latin and Latin-1), so a
  \<^typ>\<open>string\<close> is a JavaScript string over that range and \<open>length\<close> is its
  \<^verbatim>\<open>.length\<close>.
\<close>

definition newline :: char where
  "newline = CHR 0x0A"

text \<open>
  \<^verbatim>\<open>s.split(sep)\<close> for a one-character separator: the pieces between the
  separators, so the empty string gives one empty piece.
\<close>

fun splitOn :: "char \<Rightarrow> string \<Rightarrow> string list" where
  "splitOn sep [] = [[]]"
| "splitOn sep (c # cs) =
     (if c = sep then [] # splitOn sep cs
      else (c # hd (splitOn sep cs)) # tl (splitOn sep cs))"

text \<open>\<^verbatim>\<open>xs.join(sep)\<close> for a one-character separator.\<close>

fun joinWith :: "char \<Rightarrow> string list \<Rightarrow> string" where
  "joinWith sep [] = []"
| "joinWith sep [w] = w"
| "joinWith sep (w # ws) = w @ sep # joinWith sep ws"

text \<open>\<^verbatim>\<open>xs.slice(i, j)\<close> for indices \<open>0 \<le> i\<close>, \<open>0 \<le> j\<close>.\<close>

definition arraySlice :: "'a list \<Rightarrow> nat \<Rightarrow> nat \<Rightarrow> 'a list" where
  "arraySlice xs i j = drop i (take j xs)"

section \<open>The chunker: \<^verbatim>\<open>splitCodeIntoChunks\<close>\<close>

text \<open>
  A chunk. The optional field \<^verbatim>\<open>embedding\<close> of the interface is never written by
  the program and is left out.
\<close>

record CodeChunk =
  filePath :: string
  startLine :: nat
  endLine :: nat
  content :: string

definition maxChunkSize :: nat where
  "maxChunkSize = 1000"

definition overlap :: nat where
  "overlap = 50"

text \<open>
  The \<^verbatim>\<open>for (let i = 0; i < lines.length; i += maxChunkSize - overlap)\<close> loop,
  from the value \<open>i\<close> of its counter on.
\<close>

function chunkLoop :: "string \<Rightarrow> string list \<Rightarrow> nat \<Rightarrow> CodeChunk list" where
  "chunkLoop fp lns i =
     (if i < length lns then
        (let endLn = min (i + maxChunkSize) (length lns);
             chunkContent = joinWith newline (arraySlice lns i endLn)
         in \<lparr>filePath = fp, startLine = i + 1, endLine = endLn, content = chunkContent\<rparr>
            # chunkLoop fp lns (i + (maxChunkSize - overlap)))
      else [])"
  by pat_completeness auto
termination
  by (relation "measure (\<lambda>(fp, lns, i). length lns - i)")
     (auto simp: maxChunkSize_def overlap_def)

declare chunkLoop.simps [simp del]

definition splitCodeIntoChunks :: "string \<Rightarrow> string \<Rightarrow> CodeChunk list" where
  "splitCodeIntoChunks fp text = chunkLoop fp (splitOn newline text) 0"

text \<open>The number of lines of a text, as the chunker counts them.\<close>

definition lineCount :: "string \<Rightarrow> nat" where
  "lineCount text = length (splitOn newline text)"

text \<open>The line numbers a chunk spans.\<close>

definition chunkRange :: "CodeChunk \<Rightarrow> nat set" where
  "chunkRange c = {startLine c..endLine c}"

section \<open>The vectorizer: \<^verbatim>\<open>simpleHash\<close> and \<^verbatim>\<open>createSimpleEmbedding\<close>\<close>

text \<open>
  \<^verbatim>\<open>String.prototype.toLowerCase\<close> on the code units 0..255: the letters A to Z and the
  Latin-1 capitals U+00C0 to U+00DE (the multiplication sign U+00D7 apart) move up by 32.
\<close>

definition toLowerCaseChar :: "char \<Rightarrow> char" where
  "toLowerCaseChar c =
     (let n = (of_char c :: nat)
      in if (65 \<le> n \<and> n \<le> 90) \<or> (192 \<le> n \<and> n \<le> 222 \<and> n \<noteq> 215)
         then char_of (n + 32) else c)"

definition toLowerCase :: "string \<Rightarrow> string" where
  "toLowerCase s = map toLowerCaseChar s"

text \<open>
  The class \<^verbatim>\<open>\s\<close> of a regular expression on the code units 0..255: tab, line feed,
  vertical tab, form feed, carriage return, space and the no-break space U+00A0.
\<close>

definition isSpace :: "char \<Rightarrow> bool" where
  "isSpace c = ((of_char c :: nat) \<in> {9, 10, 11, 12, 13, 32, 160})"

text \<open>
  \<^verbatim>\<open>s.split(/\s+/)\<close>: the pieces between the maximal runs of white space. \<open>inSep\<close>
  says that the scan is inside such a run, \<open>cur\<close> is the piece read so far. White space
  at the start or the end of the string gives an empty piece there, and the empty string
  gives one empty piece.
\<close>

fun splitWs :: "bool \<Rightarrow> string \<Rightarrow> string \<Rightarrow> string list" where
  "splitWs inSep cur [] = [cur]"
| "splitWs inSep cur (c # cs) =
     (if isSpace c then (if inSep then splitWs True cur cs else cur # splitWs True [] cs)
      else splitWs False (cur @ [c]) cs)"

definition splitWhitespace :: "string \<Rightarrow> string list" where
  "splitWhitespace s = splitWs False [] s"

text \<open>
  One round of the loop of \<^verbatim>\<open>simpleHash\<close>:
  \<^verbatim>\<open>hash = ((hash << 5) - hash) + char; hash = hash & hash\<close>. The shift and the
  conjunction work on 32-bit integers, so \<open>hash\<close> is a 32-bit word after every round and
  the subtraction and the addition between them are exact; reduced to 32 bits they are
  the word operations.
\<close>

definition hashStep :: "32 word \<Rightarrow> char \<Rightarrow> 32 word" where
  "hashStep hash c =
     (let h = (push_bit 5 hash - hash) + of_nat (of_char c) in h AND h)"

fun hashLoop :: "32 word \<Rightarrow> string \<Rightarrow> 32 word" where
  "hashLoop hash [] = hash"
| "hashLoop hash (c # cs) = hashLoop (hashStep hash c) cs"

text \<open>\<^verbatim>\<open>Math.abs(hash)\<close> of the signed reading of the word.\<close>

definition simpleHash :: "string \<Rightarrow> nat" where
  "simpleHash str = nat \<bar>sint (hashLoop 0 str)\<bar>"

text \<open>The body of \<^verbatim>\<open>words.forEach\<close>: one more in the bucket of the word's hash.\<close>

definition countWord :: "real list \<Rightarrow> string \<Rightarrow> real list" where
  "countWord embedding word =
     (let hash = simpleHash word;
          index = hash mod length embedding
      in embedding[index := embedding ! index + 1])"

text \<open>\<^verbatim>\<open>embedding.reduce((sum, val) => sum + val * val, 0)\<close>.\<close>

definition sumSquares :: "real list \<Rightarrow> real" where
  "sumSquares embedding = foldl (\<lambda>sum val. sum + val * val) 0 embedding"

definition createSimpleEmbedding :: "string \<Rightarrow> real list" where
  "createSimpleEmbedding text =
     (let words = splitWhitespace (toLowerCase text);
          embedding = foldl countWord (replicate 1536 0) words;
          norm = sqrt (sumSquares embedding)
      in map (\<lambda>val. if norm > 0 then val / norm else 0) embedding)"

section \<open>The ranker: \<^verbatim>\<open>cosineSimilarity\<close>\<close>

text \<open>
  Numbers are exact real numbers here and in the vectorizer above; the section on
  double-precision arithmetic below gives both functions again with every operation
  rounded as the doubles of the program are. Without rounding, the one place where the
  program can leave the real numbers is the division that ends
  \<^verbatim>\<open>cosineSimilarity\<close>: a division by zero gives \<^verbatim>\<open>NaN\<close> for \<open>0 / 0\<close> and an
  infinity otherwise.
\<close>

datatype number = Num real | PInf | NInf | NaN

definition divide_number :: "real \<Rightarrow> real \<Rightarrow> number" where
  "divide_number x y =
     (if y \<noteq> 0 then Num (x / y)
      else if x = 0 then NaN
      else if x > 0 then PInf else NInf)"

text \<open>The loop of \<^verbatim>\<open>cosineSimilarity\<close>, on arrays of the same length.\<close>

fun cosineLoop :: "real list \<Rightarrow> real list \<Rightarrow> real \<times> real \<times> real \<Rightarrow> real \<times> real \<times> real" where
  "cosineLoop (x # xs) (y # ys) (dotProduct, normA, normB) =
     cosineLoop xs ys (dotProduct + x * y, normA + x * x, normB + y * y)"
| "cosineLoop _ _ acc = acc"

definition cosineSimilarity :: "real list \<Rightarrow> real list \<Rightarrow> number" where
  "cosineSimilarity a b =
     (if length a \<noteq> length b then Num 0
      else (case cosineLoop a b (0, 0, 0) of
              (dotProduct, normA, normB) \<Rightarrow>
                divide_number dotProduct (sqrt normA * sqrt normB)))"

text \<open>The Euclidean norm of a vector.\<close>

definition l2norm :: "real list \<Rightarrow> real" where
  "l2norm v = sqrt (sumSquares v)"

section \<open>The index and the search: \<^verbatim>\<open>indexCodebase\<close>, \<^verbatim>\<open>searchCodebase\<close>, \<^verbatim>\<open>fallbackSearch\<close>\<close>

text \<open>
  The state of a \<^verbatim>\<open>FileSystemTools\<close> object. The \<^verbatim>\<open>Map\<close> of embeddings is a list
  of pairs without repeated keys, in the order of insertion, which is the order in which
  a \<^verbatim>\<open>for ... of\<close> loop reads it.
\<close>

record FileSystemTools =
  codeChunks :: "CodeChunk list"
  embeddings :: "(string \<times> real list) list"

record SearchResult =
  file_result :: string
  line :: nat
  content_result :: string
  score :: "number option"

datatype error = Thrown string

text \<open>The state that the constructor leaves.\<close>

definition newFileSystemTools :: FileSystemTools where
  "newFileSystemTools = \<lparr>codeChunks = [], embeddings = []\<rparr>"

text \<open>\<^verbatim>\<open>map.set(key, value)\<close>: a key that is present keeps its place.\<close>

fun mapSet :: "string \<Rightarrow> 'v \<Rightarrow> (string \<times> 'v) list \<Rightarrow> (string \<times> 'v) list" where
  "mapSet key v [] = [(key, v)]"
| "mapSet key v ((k, w) # rest) =
     (if k = key then (k, v) # rest else (k, w) # mapSet key v rest)"

text \<open>A natural number in decimal, as a template literal prints it.\<close>

definition digitChar :: "nat \<Rightarrow> char" where
  "digitChar d = char_of (48 + d)"

function showNat :: "nat \<Rightarrow> string" where
  "showNat n = (if n < 10 then [digitChar n] else showNat (n div 10) @ [digitChar (n mod 10)])"
  by pat_completeness auto
termination
  by (relation "measure id") auto

declare showNat.simps [simp del]

text \<open>The key \<^verbatim>\<open>`${chunk.filePath}:${chunk.startLine}`\<close> of a chunk.\<close>

definition chunkKey :: "CodeChunk \<Rightarrow> string" where
  "chunkKey chunk = filePath chunk @ '':'' @ showNat (startLine chunk)"

text \<open>
  \<^verbatim>\<open>parseInt(s)\<close> with no radix: white space at the start is skipped, a sign may follow,
  then after \<^verbatim>\<open>0x\<close> or \<^verbatim>\<open>0X\<close> hexadecimal digits and otherwise decimal digits are read
  up to the first other character. With no digit the result is \<^verbatim>\<open>NaN\<close>, here \<open>None\<close>.
\<close>

definition digitValue :: "nat \<Rightarrow> char \<Rightarrow> nat option" where
  "digitValue radix c =
     (let n = (of_char c :: nat);
          v = (if 48 \<le> n \<and> n \<le> 57 then Some (n - 48)
               else if 97 \<le> n \<and> n \<le> 122 then Some (n - 87)
               else if 65 \<le> n \<and> n \<le> 90 then Some (n - 55)
               else None)
      in case v of None \<Rightarrow> None | Some d \<Rightarrow> if d < radix then Some d else None)"

fun parseDigits :: "nat \<Rightarrow> string \<Rightarrow> nat option \<Rightarrow> nat option" where
  "parseDigits radix [] acc = acc"
| "parseDigits radix (c # cs) acc =
     (case digitValue radix c of
        None \<Rightarrow> acc
      | Some d \<Rightarrow> parseDigits radix cs (Some (radix * (case acc of None \<Rightarrow> 0 | Some a \<Rightarrow> a) + d)))"

definition parseInt :: "string \<Rightarrow> int option" where
  "parseInt s =
     (let s1 = dropWhile isSpace s;
          negative = (s1 \<noteq> [] \<and> hd s1 = CHR ''-'');
          s2 = (if s1 \<noteq> [] \<and> (hd s1 = CHR ''-'' \<or> hd s1 = CHR ''+'') then tl s1 else s1);
          hex = (take 2 s2 = ''0x'' \<or> take 2 s2 = ''0X'');
          digits = (if hex then parseDigits 16 (drop 2 s2) None else parseDigits 10 s2 None)
      in case digits of
           None \<Rightarrow> None
         | Some v \<Rightarrow> Some (if negative then - int v else int v))"

text \<open>\<^verbatim>\<open>s.trim()\<close>.\<close>

definition trim :: "string \<Rightarrow> string" where
  "trim s = rev (dropWhile isSpace (rev (dropWhile isSpace s)))"

text \<open>
  \<^verbatim>\<open>xs.slice(0, limit)\<close> for an integer \<open>limit\<close>: a negative limit counts from the end.
\<close>

definition sliceLimit :: "'a list \<Rightarrow> int \<Rightarrow> 'a list" where
  "sliceLimit xs limit =
     (if limit < 0 then take (nat (int (length xs) + limit)) xs else take (nat limit) xs)"

text \<open>\<^verbatim>\<open>chunk.content.split('\n')[0].trim()\<close>.\<close>

definition firstLine :: "string \<Rightarrow> string" where
  "firstLine s = trim (hd (splitOn newline s))"

subsection \<open>Building the index\<close>

text \<open>The loop over the chunks of one file in \<^verbatim>\<open>indexCodebase\<close>.\<close>

fun indexChunks :: "CodeChunk list \<Rightarrow> FileSystemTools \<Rightarrow> FileSystemTools" where
  "indexChunks [] st = st"
| "indexChunks (chunk # chunks) st =
     (let st1 = st\<lparr>codeChunks := codeChunks st @ [chunk]\<rparr>;
          embedding = createSimpleEmbedding (content chunk);
          st2 = (if length embedding > 0
                 then st1\<lparr>embeddings := mapSet (chunkKey chunk) embedding (embeddings st1)\<rparr>
                 else st1)
      in indexChunks chunks st2)"

text \<open>
  The loop over the files. A file is its path relative to the root and its content, or
  \<open>None\<close> when reading it fails; such a file is skipped.
\<close>

fun indexFiles :: "(string \<times> string option) list \<Rightarrow> FileSystemTools \<Rightarrow> FileSystemTools" where
  "indexFiles [] st = st"
| "indexFiles ((relativePath, None) # files) st = indexFiles files st"
| "indexFiles ((relativePath, Some text) # files) st =
     indexFiles files (indexChunks (splitCodeIntoChunks relativePath text) st)"

text \<open>
  \<^verbatim>\<open>indexCodebase\<close>, given what \<^verbatim>\<open>glob\<close> returns: an error, which is thrown on with the
  state as it was, or the code files.
\<close>

definition indexCodebase ::
  "error + (string \<times> string option) list \<Rightarrow> FileSystemTools \<Rightarrow> error + FileSystemTools" where
  "indexCodebase globbed st =
     (case globbed of
        Inl e \<Rightarrow> Inl e
      | Inr codeFiles \<Rightarrow> Inr (indexFiles codeFiles (st\<lparr>codeChunks := [], embeddings := []\<rparr>)))"

subsection \<open>Searching\<close>

text \<open>
  The fuzzy matcher of the library Fuse.js, set up on the chunks with the key
  \<^verbatim>\<open>content\<close>, threshold 0.6 and scores: from the chunks and the query to the matches,
  best first, each with its score (0 is a perfect match), or an error that it throws.
\<close>

type_synonym fuse = "CodeChunk list \<Rightarrow> string \<Rightarrow> error + (CodeChunk \<times> real) list"

definition fallbackSearch ::
  "fuse \<Rightarrow> FileSystemTools \<Rightarrow> string \<Rightarrow> int \<Rightarrow> error + SearchResult list" where
  "fallbackSearch fuseSearch st query limit =
     (case fuseSearch (codeChunks st) query of
        Inl e \<Rightarrow> Inl e
      | Inr results \<Rightarrow>
          Inr (map (\<lambda>(item, itemScore).
                 \<lparr>file_result = filePath item, line = startLine item,
                  content_result = firstLine (content item),
                  score = (if itemScore \<noteq> 0 then Some (Num (1 - itemScore)) else None)\<rparr>)
               (sliceLimit results limit)))"

text \<open>
  The loop over the entries of the map: the similarity of the query with the stored
  vector, the key split at the colons into a path and a line number, the first chunk with
  that path and that line; an entry with no such chunk adds nothing.
\<close>

fun collectSimilarities ::
  "CodeChunk list \<Rightarrow> real list \<Rightarrow> (string \<times> real list) list \<Rightarrow> (CodeChunk \<times> number) list" where
  "collectSimilarities chunks queryEmbedding [] = []"
| "collectSimilarities chunks queryEmbedding ((key, embedding) # rest) =
     (let similarity = cosineSimilarity queryEmbedding embedding;
          parts = splitOn (CHR '':'') key;
          path = hd parts;
          startLn = (case tl parts of [] \<Rightarrow> None | startLineStr # _ \<Rightarrow> parseInt startLineStr)
      in case find (\<lambda>c. filePath c = path \<and> Some (int (startLine c)) = startLn) chunks of
           Some chunk \<Rightarrow> (chunk, similarity) # collectSimilarities chunks queryEmbedding rest
         | None \<Rightarrow> collectSimilarities chunks queryEmbedding rest)"

text \<open>
  The subtraction \<^verbatim>\<open>b.similarity - a.similarity\<close> of the comparison function, and
  whether the sort takes its result for positive, which puts \<open>a\<close> after \<open>b\<close>. A result
  \<^verbatim>\<open>NaN\<close> counts as 0.
\<close>

fun subtract_number :: "number \<Rightarrow> number \<Rightarrow> number" where
  "subtract_number (Num x) (Num y) = Num (x - y)"
| "subtract_number NaN _ = NaN"
| "subtract_number _ NaN = NaN"
| "subtract_number PInf PInf = NaN"
| "subtract_number NInf NInf = NaN"
| "subtract_number PInf _ = PInf"
| "subtract_number NInf _ = NInf"
| "subtract_number (Num x) PInf = NInf"
| "subtract_number (Num x) NInf = PInf"

fun positive_number :: "number \<Rightarrow> bool" where
  "positive_number (Num x) = (x > 0)"
| "positive_number PInf = True"
| "positive_number _ = False"

text \<open>
  \<^verbatim>\<open>similarities.sort((a, b) => b.similarity - a.similarity)\<close>. The language fixes
  the result of a sort only where the comparison function is consistent on the entries:
  then the result is the stable sort, in which an entry stands behind those that the
  comparison puts before it and entries that compare as equal keep their order. The
  comparison puts \<open>a\<close> after \<open>b\<close> when its result is positive; the entries tie when it puts
  neither after the other (its result is 0 or \<^verbatim>\<open>NaN\<close>). It is consistent when both
  relations are transitive on the entries, which fails, for one, on two different numbers
  and a \<^verbatim>\<open>NaN\<close>.
\<close>

definition comesAfter :: "CodeChunk \<times> number \<Rightarrow> CodeChunk \<times> number \<Rightarrow> bool" where
  "comesAfter a b = positive_number (subtract_number (snd b) (snd a))"

definition ties :: "CodeChunk \<times> number \<Rightarrow> CodeChunk \<times> number \<Rightarrow> bool" where
  "ties a b = (\<not> comesAfter a b \<and> \<not> comesAfter b a)"

definition consistentComparison :: "(CodeChunk \<times> number) list \<Rightarrow> bool" where
  "consistentComparison similarities =
     (\<forall>a\<in>set similarities. \<forall>b\<in>set similarities. \<forall>c\<in>set similarities.
        (comesAfter a b \<and> comesAfter b c \<longrightarrow> comesAfter a c) \<and>
        (ties a b \<and> ties b c \<longrightarrow> ties a c))"

fun insertBySimilarity ::
  "CodeChunk \<times> number \<Rightarrow> (CodeChunk \<times> number) list \<Rightarrow> (CodeChunk \<times> number) list" where
  "insertBySimilarity a [] = [a]"
| "insertBySimilarity a (b # rest) =
     (if comesAfter a b then b # insertBySimilarity a rest else a # b # rest)"

text \<open>
  Where the comparison function is not consistent the order of the result is left to the
  JavaScript engine. What the engine does then is a parameter: a function from the array
  to the array that it leaves.
\<close>

type_synonym arraySort = "(CodeChunk \<times> number) list \<Rightarrow> (CodeChunk \<times> number) list"

definition sortBySimilarity ::
  "arraySort \<Rightarrow> (CodeChunk \<times> number) list \<Rightarrow> (CodeChunk \<times> number) list" where
  "sortBySimilarity engineSort similarities =
     (if consistentComparison similarities then foldr insertBySimilarity similarities []
      else engineSort similarities)"

text \<open>The search with embeddings: rank the entries of the map, keep \<open>limit\<close> of them.\<close>

definition rankBySimilarity ::
  "arraySort \<Rightarrow> FileSystemTools \<Rightarrow> real list \<Rightarrow> int \<Rightarrow> SearchResult list" where
  "rankBySimilarity engineSort st queryEmbedding limit =
     (let similarities = collectSimilarities (codeChunks st) queryEmbedding (embeddings st)
      in map (\<lambda>(chunk, similarity).
            \<lparr>file_result = filePath chunk, line = startLine chunk,
             content_result = firstLine (content chunk),
             score = Some similarity\<rparr>)
          (sliceLimit (sortBySimilarity engineSort similarities) limit))"

text \<open>
  \<^verbatim>\<open>searchCodebase\<close>. It returns the results, or the error that the fuzzy matcher throws,
  together with the state of the object afterwards. Nothing in the \<^verbatim>\<open>try\<close> block throws
  but the fuzzy matcher, and the \<^verbatim>\<open>catch\<close> block calls the fuzzy matcher again, which
  throws again: an error of the fuzzy matcher is the result in either block.
\<close>

definition searchCodebase ::
  "arraySort \<Rightarrow> fuse \<Rightarrow> string \<Rightarrow> int \<Rightarrow> FileSystemTools
   \<Rightarrow> (error + SearchResult list) \<times> FileSystemTools" where
  "searchCodebase engineSort fuseSearch query limit st =
     (if length (codeChunks st) = 0 then (Inr [], st)
      else if length (embeddings st) > 0 then
        (let queryEmbedding = createSimpleEmbedding query
         in if length queryEmbedding = 0 then (fallbackSearch fuseSearch st query limit, st)
            else (Inr (rankBySimilarity engineSort st queryEmbedding limit), st))
      else (fallbackSearch fuseSearch st query limit, st))"





text \<open>
  For examples: an index of one chunk whose stored vector is the zero vector, the same
  index with no stored vector, an engine whose sort leaves an array with an inconsistent
  comparison as it is, and a fuzzy matcher that reports every chunk as a match with score
  0.25.
\<close>

definition exampleChunk :: CodeChunk where
  "exampleChunk = \<lparr>filePath = ''a.ts'', startLine = 1, endLine = 1, content = ''hello''\<rparr>"

definition zeroVectorIndex :: FileSystemTools where
  "zeroVectorIndex =
     \<lparr>codeChunks = [exampleChunk], embeddings = [(''a.ts:1'', replicate 1536 0)]\<rparr>"

definition noVectorIndex :: FileSystemTools where
  "noVectorIndex = \<lparr>codeChunks = [exampleChunk], embeddings = []\<rparr>"

definition keepOrder :: arraySort where
  "keepOrder similarities = similarities"

definition matchEveryChunk :: fuse where
  "matchEveryChunk chunks query = Inr (map (\<lambda>c. (c, 0.25)) chunks)"

definition throwingMatcher :: fuse where
  "throwingMatcher chunks query = Inl (Thrown ''fuse'')"

section \<open>The filesystem tool \<^verbatim>\<open>grep\<close>\<close>

text \<open>
  The regular expression \<^verbatim>\<open>new RegExp(searchTerm, 'gi')\<close> is an object with a field
  \<^verbatim>\<open>lastIndex\<close>, 0 at first. Its matcher is a parameter here: from a string and the
  index where the scan starts to the index where the first match from there on ends, or
  \<open>None\<close> when there is no match.
\<close>

type_synonym regexExec = "string \<Rightarrow> nat \<Rightarrow> nat option"

text \<open>
  \<^verbatim>\<open>regex.test(line)\<close> for an expression with the flag \<^verbatim>\<open>g\<close>: the scan starts at
  \<^verbatim>\<open>lastIndex\<close>; a match leaves \<^verbatim>\<open>lastIndex\<close> at its end, a failure (also when
  \<^verbatim>\<open>lastIndex\<close> is beyond the string) leaves it at 0. The result is the answer and the
  new \<^verbatim>\<open>lastIndex\<close>.
\<close>

definition regexTest :: "regexExec \<Rightarrow> string \<Rightarrow> nat \<Rightarrow> bool \<times> nat" where
  "regexTest exec lineText lastIndex =
     (if lastIndex > length lineText then (False, 0)
      else (case exec lineText lastIndex of None \<Rightarrow> (False, 0) | Some e \<Rightarrow> (True, e)))"

text \<open>
  \<^verbatim>\<open>lines.forEach((line, index) => ...)\<close> for one file: the results of the file and the
  \<^verbatim>\<open>lastIndex\<close> that the expression is left with.
\<close>

fun grepLines ::
  "regexExec \<Rightarrow> string \<Rightarrow> string list \<Rightarrow> nat \<Rightarrow> nat \<Rightarrow> SearchResult list \<times> nat" where
  "grepLines exec relFile [] index lastIndex = ([], lastIndex)"
| "grepLines exec relFile (lineText # rest) index lastIndex =
     (case regexTest exec lineText lastIndex of
        (matched, lastIndex') \<Rightarrow>
          (case grepLines exec relFile rest (index + 1) lastIndex' of
             (results, final) \<Rightarrow>
               ((if matched
                 then [\<lparr>file_result = relFile, line = index + 1,
                        content_result = trim lineText, score = None\<rparr>]
                 else []) @ results, final)))"

text \<open>
  The loop over the files, each with its path relative to the root and its content, or
  \<open>None\<close> when reading it fails; such a file is skipped. The one expression serves all
  files.
\<close>

fun grepFiles :: "regexExec \<Rightarrow> (string \<times> string option) list \<Rightarrow> nat \<Rightarrow> SearchResult list" where
  "grepFiles exec [] lastIndex = []"
| "grepFiles exec ((relFile, None) # files) lastIndex = grepFiles exec files lastIndex"
| "grepFiles exec ((relFile, Some text) # files) lastIndex =
     (case grepLines exec relFile (splitOn newline text) 0 lastIndex of
        (results, lastIndex') \<Rightarrow> results @ grepFiles exec files lastIndex')"

text \<open>
  \<^verbatim>\<open>grep\<close>, given the constructor of regular expressions, which throws on a malformed
  term, and what \<^verbatim>\<open>glob\<close> returns: an error or the files. Both errors are thrown on.
\<close>

definition grep ::
  "(string \<Rightarrow> error + regexExec) \<Rightarrow> string \<Rightarrow> error + (string \<times> string option) list
   \<Rightarrow> error + SearchResult list" where
  "grep newRegExp searchTerm globbed =
     (case globbed of
        Inl e \<Rightarrow> Inl e
      | Inr files \<Rightarrow>
          (case newRegExp searchTerm of
             Inl e \<Rightarrow> Inl e
           | Inr exec \<Rightarrow> Inr (grepFiles exec files 0)))"

text \<open>
  The matcher of a search term without special characters under the flag \<^verbatim>\<open>i\<close>: the
  first place from the start index on where the term stands, letters compared without
  their case.
\<close>

fun findFrom :: "string \<Rightarrow> string \<Rightarrow> nat \<Rightarrow> nat option" where
  "findFrom needle [] p = (if needle = [] then Some p else None)"
| "findFrom needle (c # cs) p =
     (if take (length needle) (c # cs) = needle then Some p else findFrom needle cs (p + 1))"

definition literalExec :: "string \<Rightarrow> regexExec" where
  "literalExec searchTerm lineText lastIndex =
     map_option (\<lambda>p. p + length searchTerm)
       (findFrom (toLowerCase searchTerm) (drop lastIndex (toLowerCase lineText)) lastIndex)"

definition literalRegExp :: "string \<Rightarrow> error + regexExec" where
  "literalRegExp searchTerm = Inr (literalExec searchTerm)"

text \<open>A file of two lines for examples; both lines hold the term \<^verbatim>\<open>todo\<close>.\<close>

definition todoFile :: string where
  "todoFile = ''xxxx todo'' @ newline # ''todo''"

section \<open>The tool-dispatch loop: \<^verbatim>\<open>generateResponseWithTools\<close> and \<^verbatim>\<open>executeToolCall\<close>\<close>

text \<open>
  Values that cross the boundary to the model service or to a tool are JSON; they are
  strings here. The arguments of a tool call are the fields of its \<^verbatim>\<open>args\<close> object.
\<close>

type_synonym json = string
type_synonym args = "(string \<times> json) list"

text \<open>What a tool throws: an \<^verbatim>\<open>Error\<close> with its message, or some other value.\<close>

datatype thrown = ErrorObject string | OtherValue

text \<open>The \<^verbatim>\<open>response\<close> of a function response: \<^verbatim>\<open>{ result }\<close> or \<^verbatim>\<open>{ error }\<close>.\<close>

datatype response = Result json | ErrorMessage string

text \<open>A part of a turn: text, a tool call of the model, or the response to one.\<close>

datatype part =
    Text string
  | FunctionCall string args
  | FunctionResponse string response

record turn =
  role :: string
  parts :: "part list"

text \<open>
  The agent: its conversation and, as a record of what it asks, the \<^verbatim>\<open>contents\<close> of each
  call of \<^verbatim>\<open>generateContent\<close> so far.
\<close>

record agent =
  history :: "turn list"
  queries :: "turn list list"

text \<open>
  The model service, from the conversation sent to an error thrown or to the content of
  the first candidate, if there is one.
\<close>

type_synonym modelService = "turn list \<Rightarrow> thrown + turn option"

text \<open>
  The six methods of \<^verbatim>\<open>FileSystemTools\<close> behind \<^verbatim>\<open>executeToolCall\<close>, by name, each
  from the arguments to its result or to what it throws.
\<close>

type_synonym tools = "string \<Rightarrow> args \<Rightarrow> thrown + json"

definition toolNames :: "string list" where
  "toolNames =
     [''readFile'', ''listDirectory'', ''searchFile'', ''grep'', ''searchCodebase'', ''getFileInfo'']"

definition executeToolCall :: "tools \<Rightarrow> string \<Rightarrow> args \<Rightarrow> thrown + json" where
  "executeToolCall toolSet toolName parameters =
     (if toolName \<in> set toolNames then toolSet toolName parameters
      else Inl (ErrorObject (''Unknown tool: '' @ toolName)))"

text \<open>
  \<^verbatim>\<open>parts.filter((part) => !!part.functionCall).map((part) => part.functionCall)\<close>.
\<close>

fun functionCallsOf :: "part list \<Rightarrow> (string \<times> args) list" where
  "functionCallsOf [] = []"
| "functionCallsOf (FunctionCall toolName parameters # ps) =
     (toolName, parameters) # functionCallsOf ps"
| "functionCallsOf (_ # ps) = functionCallsOf ps"

text \<open>\<^verbatim>\<open>parts.filter((p) => p.text).map((p) => p.text).join('')\<close>.\<close>

fun textOf :: "part list \<Rightarrow> string" where
  "textOf [] = []"
| "textOf (Text t # ps) = t @ textOf ps"
| "textOf (_ # ps) = textOf ps"

text \<open>The function that \<^verbatim>\<open>functionCalls.map\<close> applies: one response part for one call.\<close>

definition respondTo :: "tools \<Rightarrow> string \<times> args \<Rightarrow> part" where
  "respondTo toolSet fc =
     (case executeToolCall toolSet (fst fc) (snd fc) of
        Inr result \<Rightarrow> FunctionResponse (fst fc) (Result result)
      | Inl (ErrorObject message) \<Rightarrow> FunctionResponse (fst fc) (ErrorMessage message)
      | Inl OtherValue \<Rightarrow> FunctionResponse (fst fc) (ErrorMessage ''An unknown error occurred.''))"

text \<open>The turn that holds the responses to the tool calls of a reply.\<close>

definition responseTurn :: "tools \<Rightarrow> turn \<Rightarrow> turn" where
  "responseTurn toolSet reply =
     \<lparr>role = ''user'', parts = map (respondTo toolSet) (functionCallsOf (parts reply))\<rparr>"

definition errorText :: "thrown \<Rightarrow> string" where
  "errorText e =
     ''I encountered an error: '' @ (case e of ErrorObject message \<Rightarrow> message | OtherValue \<Rightarrow> ''Unknown error'')"

definition orElse :: "string \<Rightarrow> string \<Rightarrow> string" where
  "orElse s fallback = (if s \<noteq> [] then s else fallback)"

text \<open>
  \<^verbatim>\<open>generateResponseWithTools\<close>: the reply and the agent afterwards. The tool calls of
  one reply are independent of each other; their responses are in the order of the
  calls.
\<close>

definition generateResponseWithTools :: "modelService \<Rightarrow> tools \<Rightarrow> agent \<Rightarrow> string \<times> agent" where
  "generateResponseWithTools model toolSet a =
     (let a1 = a\<lparr>queries := queries a @ [history a]\<rparr>
      in case model (history a) of
           Inl e \<Rightarrow> (errorText e, a1)
         | Inr None \<Rightarrow> (''I am sorry, but I could not process your request.'', a1)
         | Inr (Some modelResponseContent) \<Rightarrow>
             (let a2 = a1\<lparr>history := history a1 @ [modelResponseContent]\<rparr>;
                  functionCalls = functionCallsOf (parts modelResponseContent)
              in if length functionCalls = 0
                 then (orElse (textOf (parts modelResponseContent))
                         ''I don't have a specific response for that.'', a2)
                 else
                   (let functionResponseParts = map (respondTo toolSet) functionCalls;
                        a3 = a2\<lparr>history := history a2
                               @ [\<lparr>role = ''user'', parts = functionResponseParts\<rparr>]\<rparr>;
                        a4 = a3\<lparr>queries := queries a3 @ [history a3]\<rparr>
                    in case model (history a3) of
                         Inl e \<Rightarrow> (errorText e, a4)
                       | Inr None \<Rightarrow> (''I was unable to generate a final response.'', a4)
                       | Inr (Some finalContent) \<Rightarrow>
                           (orElse (textOf (parts finalContent)) ''No final text response.'',
                            a4\<lparr>history := history a4 @ [finalContent]\<rparr>))))"

text \<open>
  Examples: a reply of text only, a reply with two tool calls of which the second names
  no tool, a model service that always gives the first, one that gives the second as its
  first reply and text afterwards, one that always gives the second, and tools that return
  their own name.
\<close>

definition textReply :: turn where
  "textReply = \<lparr>role = ''model'', parts = [Text ''done'']\<rparr>"

definition callsReply :: turn where
  "callsReply =
     \<lparr>role = ''model'',
      parts = [FunctionCall ''readFile'' [(''filePath'', ''a.ts'')], FunctionCall ''deleteFile'' []]\<rparr>"

definition textOnlyModel :: modelService where
  "textOnlyModel contents = Inr (Some textReply)"

definition callingModel :: modelService where
  "callingModel contents = (if length contents \<le> 1 then Inr (Some callsReply) else Inr (Some textReply))"

definition alwaysCallingModel :: modelService where
  "alwaysCallingModel contents = Inr (Some callsReply)"

definition echoTools :: tools where
  "echoTools toolName parameters = Inr toolName"

definition userTurn :: turn where
  "userTurn = \<lparr>role = ''user'', parts = [Text ''read a.ts'']\<rparr>"

definition startAgent :: agent where
  "startAgent = \<lparr>history = [userTurn], queries = []\<rparr>"

section \<open>Double-precision arithmetic\<close>

text \<open>
  The numbers of the program are IEEE 754 doubles. A finite double is \<open>k * 2 ^ e\<close> for
  integers \<open>k\<close> and \<open>e\<close> with \<open>\<bar>k\<bar> < 2 ^ 53\<close> and \<open>-1074 \<le> e \<le> 971\<close>; \<open>Num x\<close> stands for
  the finite double \<open>x\<close>. An operation gives the exact result rounded to the nearest
  double, to the one with the even \<open>k\<close> when two are as near; a result of at least
  \<open>2 ^ 1024 - 2 ^ 970\<close> in size rounds to an infinity. The sign of a zero is not
  modelled: of the functions below none can tell it, since their sums start at the
  positive zero and their divisors are square roots of such sums.
\<close>

definition roundHalfEven :: "real \<Rightarrow> int" where
  "roundHalfEven q =
     (let f = \<lfloor>q\<rfloor>
      in if q - of_int f < 1 / 2 then f
         else if q - of_int f > 1 / 2 then f + 1
         else if even f then f else f + 1)"

definition roundDouble :: "real \<Rightarrow> number" where
  "roundDouble x =
     (if x = 0 then Num 0
      else if \<bar>x\<bar> \<ge> 2 ^ 1024 - 2 ^ 970 then (if x > 0 then PInf else NInf)
      else (let e = max \<lfloor>log 2 \<bar>x\<bar>\<rfloor> (- 1022);
                ulp = 2 powi (e - 52)
            in Num (of_int (roundHalfEven (x / ulp)) * ulp)))"






subsection \<open>The vectorizer and the similarity in double precision\<close>






subsection \<open>The doubles of an example\<close>

definition dTwoSquares :: real where "dTwoSquares = 6004799503160663 / 2 ^ 53"



chapter \<open>Properties\<close>

section \<open>Properties of the string helpers\<close>

lemma splitOn_nonempty: "splitOn sep s \<noteq> []"
  by (induction s) auto

lemma length_splitOn_pos: "0 < length (splitOn sep s)"
  using splitOn_nonempty [of sep s] by simp

lemma joinWith_Cons: "ws \<noteq> [] \<Longrightarrow> joinWith sep (w # ws) = w @ sep # joinWith sep ws"
  by (cases ws) auto

lemma joinWith_splitOn: "joinWith sep (splitOn sep s) = s"
proof (induction s)
  case Nil
  show ?case by simp
next
  case (Cons c cs)
  obtain w ws where sp: "splitOn sep cs = w # ws"
    using splitOn_nonempty [of sep cs] by (cases "splitOn sep cs") auto
  show ?case
  proof (cases "c = sep")
    case True
    with Cons show ?thesis by (simp add: joinWith_Cons splitOn_nonempty)
  next
    case False
    with Cons sp show ?thesis by (cases ws) auto
  qed
qed

lemma splitOn_replicate: "splitOn sep (replicate n sep) = replicate (Suc n) []"
  by (induction n) auto

section \<open>Properties of the chunker\<close>

lemma chunk_count_step:
  assumes "i < (n::nat)"
  shows "Suc ((n - (i + 950) + 949) div 950) = (n - i + 949) div 950"
proof (cases "i + 950 \<le> n")
  case True
  then have "n - i + 949 = (n - (i + 950) + 949) + 950" by simp
  then show ?thesis by (simp only: div_add_self2)
next
  case False
  then have "n - (i + 950) = 0" by simp
  moreover have "(n - i + 949) div 950 = 1"
    using assms False by (intro div_nat_eqI) simp_all
  ultimately show ?thesis by simp
qed

lemma chunk_count_less: "k < ((n::nat) + 949) div 950 \<longleftrightarrow> 950 * k < n"
proof -
  have "k < (n + 949) div 950 \<longleftrightarrow> Suc k \<le> (n + 949) div 950" by (simp add: Suc_le_eq)
  also have "\<dots> \<longleftrightarrow> Suc k * 950 \<le> n + 949" by (simp only: less_eq_div_iff_mult_less_eq zero_less_numeral)
  also have "\<dots> \<longleftrightarrow> 950 * k < n" by (simp add: algebra_simps) linarith
  finally show ?thesis .
qed

lemma chunkLoop_done: "length lns \<le> i \<Longrightarrow> chunkLoop fp lns i = []"
  by (simp add: chunkLoop.simps)

lemma chunkLoop_step:
  "i < length lns \<Longrightarrow> chunkLoop fp lns i =
     \<lparr>filePath = fp, startLine = i + 1, endLine = min (i + 1000) (length lns),
      content = joinWith newline (arraySlice lns i (min (i + 1000) (length lns)))\<rparr>
     # chunkLoop fp lns (i + 950)"
  by (subst chunkLoop.simps) (simp add: maxChunkSize_def overlap_def Let_def)

lemma length_chunkLoop: "length (chunkLoop fp lns i) = (length lns - i + 949) div 950"
proof (induction fp lns i rule: chunkLoop.induct)
  case (1 fp lns i)
  show ?case
  proof (cases "i < length lns")
    case True
    have "length (chunkLoop fp lns (i + 950)) = (length lns - (i + 950) + 949) div 950"
      using "1.IH" [OF True refl refl] by (simp add: maxChunkSize_def overlap_def)
    moreover have "Suc ((length lns - (i + 950) + 949) div 950) = (length lns - i + 949) div 950"
      using True by (simp add: chunk_count_step)
    ultimately show ?thesis using True by (simp add: chunkLoop_step)
  next
    case False
    then show ?thesis by (simp add: chunkLoop_done)
  qed
qed

lemma nth_chunkLoop:
  "k < length (chunkLoop fp lns i) \<Longrightarrow>
   chunkLoop fp lns i ! k =
     \<lparr>filePath = fp, startLine = i + 950 * k + 1,
      endLine = min (i + 950 * k + 1000) (length lns),
      content = joinWith newline
        (arraySlice lns (i + 950 * k) (min (i + 950 * k + 1000) (length lns)))\<rparr>"
proof (induction fp lns i arbitrary: k rule: chunkLoop.induct)
  case (1 fp lns i)
  show ?case
  proof (cases "i < length lns")
    case True
    note step = chunkLoop_step [OF True, of fp]
    show ?thesis
    proof (cases k)
      case 0
      then show ?thesis by (simp add: step)
    next
      case (Suc j)
      with "1.prems" have "j < length (chunkLoop fp lns (i + 950))"
        by (simp add: step)
      then have "chunkLoop fp lns (i + 950) ! j =
        \<lparr>filePath = fp, startLine = i + 950 + 950 * j + 1,
         endLine = min (i + 950 + 950 * j + 1000) (length lns),
         content = joinWith newline
           (arraySlice lns (i + 950 + 950 * j) (min (i + 950 + 950 * j + 1000) (length lns)))\<rparr>"
        using "1.IH" [OF True refl refl, of j] by (simp add: maxChunkSize_def overlap_def)
      then show ?thesis using Suc by (simp add: step add.assoc)
    qed
  next
    case False
    with "1.prems" show ?thesis by (simp add: chunkLoop_done)
  qed
qed

lemma lineCount_pos: "1 \<le> lineCount text"
  using splitOn_nonempty [of newline "text"]
  by (cases "splitOn newline text") (simp_all add: lineCount_def)

lemma length_split: "length (splitCodeIntoChunks fp text) = (lineCount text + 949) div 950"
  by (simp add: splitCodeIntoChunks_def lineCount_def length_chunkLoop)

lemma nth_split:
  "k < length (splitCodeIntoChunks fp text) \<Longrightarrow>
   splitCodeIntoChunks fp text ! k =
     \<lparr>filePath = fp, startLine = 950 * k + 1,
      endLine = min (950 * k + 1000) (lineCount text),
      content = joinWith newline
        (arraySlice (splitOn newline text) (950 * k) (min (950 * k + 1000) (lineCount text)))\<rparr>"
  using nth_chunkLoop [of k fp "splitOn newline text" 0]
  by (simp add: splitCodeIntoChunks_def lineCount_def)

lemma idx_split: "k < length (splitCodeIntoChunks fp text) \<longleftrightarrow> 950 * k < lineCount text"
  unfolding length_split by (rule chunk_count_less)

lemma range_nth:
  "k < length (splitCodeIntoChunks fp text) \<Longrightarrow>
   chunkRange (splitCodeIntoChunks fp text ! k) = {950 * k + 1..min (950 * k + 1000) (lineCount text)}"
  by (simp add: nth_split chunkRange_def)

lemma split_union: "(\<Union>c\<in>set (splitCodeIntoChunks fp text). chunkRange c) = {1..lineCount text}"
proof (intro equalityI subsetI)
  fix l assume "l \<in> (\<Union>c\<in>set (splitCodeIntoChunks fp text). chunkRange c)"
  then obtain k where k: "k < length (splitCodeIntoChunks fp text)"
    and l: "l \<in> chunkRange (splitCodeIntoChunks fp text ! k)"
    by (auto simp: in_set_conv_nth)
  from l show "l \<in> {1..lineCount text}" by (simp add: range_nth [OF k])
next
  fix l assume l: "l \<in> {1..lineCount text}"
  define k where "k = (l - 1) div 950"
  have lo: "950 * k \<le> l - 1" unfolding k_def by simp
  have hi: "l - 1 < 950 + 950 * k" unfolding k_def by (rule dividend_less_times_div) simp
  have "950 * k < lineCount text" using l lo by (simp only: atLeastAtMost_iff) linarith
  then have k: "k < length (splitCodeIntoChunks fp text)" by (simp add: idx_split)
  have "950 * k + 1 \<le> l" "l \<le> 950 * k + 1000"
    using l lo hi by (simp_all only: atLeastAtMost_iff) linarith+
  then have "l \<in> chunkRange (splitCodeIntoChunks fp text ! k)"
    using l by (simp add: range_nth [OF k])
  with k show "l \<in> (\<Union>c\<in>set (splitCodeIntoChunks fp text). chunkRange c)"
    using nth_mem [OF k] by blast
qed

lemma split_nogap:
  assumes "Suc k < length (splitCodeIntoChunks fp text)"
  shows "startLine (splitCodeIntoChunks fp text ! Suc k) \<le> endLine (splitCodeIntoChunks fp text ! k)"
proof -
  have k: "k < length (splitCodeIntoChunks fp text)" using assms by simp
  have "950 * Suc k < lineCount text" using assms by (simp only: idx_split)
  then show ?thesis by (simp add: nth_split [OF k] nth_split [OF assms])
qed

lemma split_overlap:
  assumes "Suc (Suc k) < length (splitCodeIntoChunks fp text)"
  shows "card (chunkRange (splitCodeIntoChunks fp text ! k)
               \<inter> chunkRange (splitCodeIntoChunks fp text ! Suc k)) = 50"
proof -
  have k: "k < length (splitCodeIntoChunks fp text)"
    and k1: "Suc k < length (splitCodeIntoChunks fp text)" using assms by simp_all
  have "950 * Suc (Suc k) < lineCount text" using assms by (simp only: idx_split)
  then show ?thesis by (simp add: range_nth [OF k] range_nth [OF k1])
qed

lemma split_last_overlap:
  assumes "Suc (Suc k) = length (splitCodeIntoChunks fp text)"
  shows "card (chunkRange (splitCodeIntoChunks fp text ! k)
               \<inter> chunkRange (splitCodeIntoChunks fp text ! Suc k)) \<in> {1..50}"
proof -
  have k: "k < length (splitCodeIntoChunks fp text)"
    and k1: "Suc k < length (splitCodeIntoChunks fp text)" using assms by simp_all
  have "950 * Suc k < lineCount text" using k1 by (simp only: idx_split)
  then show ?thesis by (simp add: range_nth [OF k] range_nth [OF k1] min_def) arith
qed

lemma list_of_length_3:
  "length xs = 3 \<Longrightarrow> xs = [xs ! 0, xs ! 1, xs ! 2]"
  by (auto simp: length_Suc_conv numeral_3_eq_3 numeral_2_eq_2)

lemma split_2000:
  assumes "lineCount text = 2000"
  shows "map (\<lambda>c. (startLine c, endLine c)) (splitCodeIntoChunks fp text)
         = [(1, 1000), (951, 1950), (1901, 2000)]"
proof -
  have len: "length (splitCodeIntoChunks fp text) = 3" by (simp add: length_split assms)
  have "splitCodeIntoChunks fp text ! 0 = \<lparr>filePath = fp, startLine = 1, endLine = 1000,
      content = joinWith newline (arraySlice (splitOn newline text) 0 1000)\<rparr>"
    using nth_split [of 0 fp "text"] by (simp add: len assms)
  moreover have "splitCodeIntoChunks fp text ! 1 = \<lparr>filePath = fp, startLine = 951, endLine = 1950,
      content = joinWith newline (arraySlice (splitOn newline text) 950 1950)\<rparr>"
    using nth_split [of 1 fp "text"] by (simp add: len assms)
  moreover have "splitCodeIntoChunks fp text ! 2 = \<lparr>filePath = fp, startLine = 1901, endLine = 2000,
      content = joinWith newline (arraySlice (splitOn newline text) 1900 2000)\<rparr>"
    using nth_split [of 2 fp "text"] by (simp add: len assms)
  ultimately show ?thesis
    by (subst list_of_length_3 [OF len]) simp
qed

lemma split_one_window:
  assumes "lineCount text \<le> 1000"
  shows "splitCodeIntoChunks fp text ! 0 =
    \<lparr>filePath = fp, startLine = 1, endLine = lineCount text, content = text\<rparr>"
proof -
  have "0 < length (splitCodeIntoChunks fp text)"
    using lineCount_pos [of "text"] by (simp add: idx_split)
  moreover have "arraySlice (splitOn newline text) 0 (lineCount text) = splitOn newline text"
    by (simp add: arraySlice_def lineCount_def)
  ultimately show ?thesis
    using assms by (simp add: nth_split min_absorb2 joinWith_splitOn)
qed

text \<open>
  Claim C1, as the code has it. A text always has at least one line, the empty text
  included. A text of at most 950 lines gives exactly one chunk, which spans lines 1 to
  the last and holds the whole text; so the empty text gives one chunk with lines 1 to 1
  and empty content. A text of 951 to 1000 lines gives two chunks: the first spans the
  whole text, the second starts at line 951 and ends at the last line.
\<close>

theorem split_at_most_one_window:
  "1 \<le> lineCount text \<and>
   (lineCount text \<le> 950 \<longrightarrow>
      splitCodeIntoChunks fp text =
        [\<lparr>filePath = fp, startLine = 1, endLine = lineCount text, content = text\<rparr>]) \<and>
   (950 < lineCount text \<and> lineCount text \<le> 1000 \<longrightarrow>
      length (splitCodeIntoChunks fp text) = 2 \<and>
      splitCodeIntoChunks fp text ! 0 =
        \<lparr>filePath = fp, startLine = 1, endLine = lineCount text, content = text\<rparr> \<and>
      startLine (splitCodeIntoChunks fp text ! 1) = 951 \<and>
      endLine (splitCodeIntoChunks fp text ! 1) = lineCount text) \<and>
   splitCodeIntoChunks fp [] =
     [\<lparr>filePath = fp, startLine = 1, endLine = 1, content = []\<rparr>]"
proof (intro conjI impI)
  show "1 \<le> lineCount text" by (rule lineCount_pos)
next
  assume small: "lineCount text \<le> 950"
  have len: "length (splitCodeIntoChunks fp text) = 1"
    using small lineCount_pos [of "text"] unfolding length_split
    by (intro div_nat_eqI) simp_all
  have "splitCodeIntoChunks fp text = [splitCodeIntoChunks fp text ! 0]"
    using len by (cases "splitCodeIntoChunks fp text") auto
  with small show "splitCodeIntoChunks fp text =
      [\<lparr>filePath = fp, startLine = 1, endLine = lineCount text, content = text\<rparr>]"
    by (simp add: split_one_window)
next
  assume mid: "950 < lineCount text \<and> lineCount text \<le> 1000"
  then show len: "length (splitCodeIntoChunks fp text) = 2"
    unfolding length_split by (intro div_nat_eqI) simp_all
  from mid show "splitCodeIntoChunks fp text ! 0 =
      \<lparr>filePath = fp, startLine = 1, endLine = lineCount text, content = text\<rparr>"
    by (simp add: split_one_window)
  from mid len show "startLine (splitCodeIntoChunks fp text ! 1) = 951"
    by (simp add: nth_split)
  from mid len show "endLine (splitCodeIntoChunks fp text ! 1) = lineCount text"
    by (simp add: nth_split)
next
  have one: "lineCount [] = 1" by (simp add: lineCount_def)
  have len: "length (splitCodeIntoChunks fp []) = 1" by (simp add: length_split one)
  have "splitCodeIntoChunks fp [] = [splitCodeIntoChunks fp [] ! 0]"
    using len by (cases "splitCodeIntoChunks fp []") auto
  then show "splitCodeIntoChunks fp [] =
      [\<lparr>filePath = fp, startLine = 1, endLine = 1, content = []\<rparr>]"
    using split_one_window [of "[]" fp] by (simp add: one)
qed

theorem split_at_most_one_window_witness:
  "lineCount ''a'' \<le> 950 \<and>
   splitCodeIntoChunks ''f.ts'' ''a'' =
     [\<lparr>filePath = ''f.ts'', startLine = 1, endLine = 1, content = ''a''\<rparr>] \<and>
   950 < lineCount (replicate 950 newline) \<and> lineCount (replicate 950 newline) \<le> 1000 \<and>
   length (splitCodeIntoChunks ''f.ts'' (replicate 950 newline)) = 2"
proof -
  have a: "lineCount ''a'' = 1" by (simp add: lineCount_def newline_def)
  have b: "lineCount (replicate 950 newline) = 951"
    by (simp add: lineCount_def splitOn_replicate)
  show ?thesis
    using split_at_most_one_window [of "''a''" "''f.ts''"]
      split_at_most_one_window [of "replicate 950 newline" "''f.ts''"]
    by (simp add: a b)
qed

text \<open>
  Claim C1 as stated fails twice: the empty text gives one chunk, not none, and a text of
  951 lines (at most one window) gives two chunks, not one.
\<close>

theorem split_at_most_one_window_counterexample:
  "splitCodeIntoChunks ''f.ts'' [] \<noteq> [] \<and>
   lineCount (replicate 950 newline) = 951 \<and>
   length (splitCodeIntoChunks ''f.ts'' (replicate 950 newline)) \<noteq> 1"
proof -
  have "length (splitCodeIntoChunks ''f.ts'' []) = 1"
    by (simp add: length_split lineCount_def)
  then have "splitCodeIntoChunks ''f.ts'' [] \<noteq> []" by auto
  then show ?thesis by (simp add: length_split lineCount_def splitOn_replicate)
qed

text \<open>
  Claim C7. The line ranges of the chunks of a text of \<open>L\<close> lines (\<open>L \<ge> 1\<close> always)
  together are exactly the lines 1 to \<open>L\<close>; each chunk starts no later than the line
  where its predecessor ends; two consecutive chunks of which the second is not the
  final one share exactly 50 lines, and the final pair shares between 1 and 50; a text
  of 2000 lines gives the three chunks 1--1000, 951--1950, 1901--2000.
\<close>

theorem chunk_coverage:
  "1 \<le> lineCount text \<and>
   (\<Union>c\<in>set (splitCodeIntoChunks fp text). chunkRange c) = {1..lineCount text} \<and>
   (\<forall>k. k + 1 < length (splitCodeIntoChunks fp text) \<longrightarrow>
      startLine (splitCodeIntoChunks fp text ! (k + 1))
        \<le> endLine (splitCodeIntoChunks fp text ! k)) \<and>
   (\<forall>k. k + 2 < length (splitCodeIntoChunks fp text) \<longrightarrow>
      card (chunkRange (splitCodeIntoChunks fp text ! k)
            \<inter> chunkRange (splitCodeIntoChunks fp text ! (k + 1))) = 50) \<and>
   (\<forall>k. k + 2 = length (splitCodeIntoChunks fp text) \<longrightarrow>
      card (chunkRange (splitCodeIntoChunks fp text ! k)
            \<inter> chunkRange (splitCodeIntoChunks fp text ! (k + 1))) \<in> {1..50}) \<and>
   (lineCount text = 2000 \<longrightarrow>
      map (\<lambda>c. (startLine c, endLine c)) (splitCodeIntoChunks fp text)
        = [(1, 1000), (951, 1950), (1901, 2000)])"
  using lineCount_pos [of "text"] split_union [of fp "text"] split_2000 [of "text" fp]
    split_nogap [of _ fp "text"] split_overlap [of _ fp "text"] split_last_overlap [of _ fp "text"]
  by simp

theorem chunk_coverage_witness:
  "lineCount (replicate 1999 newline) = 2000 \<and>
   map (\<lambda>c. (startLine c, endLine c)) (splitCodeIntoChunks ''a.ts'' (replicate 1999 newline))
     = [(1, 1000), (951, 1950), (1901, 2000)] \<and>
   0 + 2 < length (splitCodeIntoChunks ''a.ts'' (replicate 1999 newline)) \<and>
   card (chunkRange (splitCodeIntoChunks ''a.ts'' (replicate 1999 newline) ! 0)
         \<inter> chunkRange (splitCodeIntoChunks ''a.ts'' (replicate 1999 newline) ! (0 + 1))) = 50"
proof -
  have L: "lineCount (replicate 1999 newline) = 2000"
    by (simp add: lineCount_def splitOn_replicate)
  have len: "length (splitCodeIntoChunks ''a.ts'' (replicate 1999 newline)) = 3"
    by (simp add: length_split L)
  show ?thesis
    using chunk_coverage [of "replicate 1999 newline" "''a.ts''"] L len
    by simp
qed

section \<open>Properties of the vectorizer\<close>

lemma splitWs_nonempty: "splitWs inSep cur s \<noteq> []"
  by (induction s arbitrary: inSep cur) auto

lemma splitWhitespace_nonempty: "splitWhitespace s \<noteq> []"
  by (simp add: splitWhitespace_def splitWs_nonempty)

lemma length_countWord: "length (countWord e w) = length e"
  by (simp add: countWord_def Let_def)


lemma countWord_nonneg:
  assumes "\<forall>x\<in>set e. 0 \<le> x"
  shows "\<forall>x\<in>set (countWord e w). 0 \<le> x"
proof (cases "e = []")
  case True
  then show ?thesis by (simp add: countWord_def)
next
  case False
  then have "0 \<le> e ! (simpleHash w mod length e)" using assms by simp
  moreover have "set (countWord e w) \<subseteq> insert (e ! (simpleHash w mod length e) + 1) (set e)"
    by (simp add: countWord_def Let_def set_update_subset_insert)
  ultimately show ?thesis using assms by fastforce
qed

lemma foldl_countWord_nonneg:
  "\<forall>x\<in>set e. 0 \<le> x \<Longrightarrow> \<forall>x\<in>set (foldl countWord e ws). 0 \<le> x"
proof (induction ws arbitrary: e)
  case Nil
  then show ?case by simp
next
  case (Cons w ws)
  have "\<forall>x\<in>set (countWord e w). 0 \<le> x" by (rule countWord_nonneg) (rule Cons.prems)
  then show ?case using Cons.IH [of "countWord e w"] by simp
qed

lemma sum_list_update_real:
  "i < length xs \<Longrightarrow> sum_list (xs[i := x]) = sum_list xs - xs ! i + (x::real)"
  by (induction xs arbitrary: i) (auto split: nat.splits)

lemma sum_list_countWord:
  assumes "e \<noteq> []"
  shows "sum_list (countWord e w) = sum_list e + 1"
proof -
  have "simpleHash w mod length e < length e" using assms by simp
  then show ?thesis by (simp add: countWord_def Let_def sum_list_update_real)
qed

lemma sum_list_foldl_countWord:
  "e \<noteq> [] \<Longrightarrow> sum_list (foldl countWord e ws) = sum_list e + real (length ws)"
proof (induction ws arbitrary: e)
  case Nil
  then show ?case by simp
next
  case (Cons w ws)
  have "countWord e w \<noteq> []" using Cons.prems length_countWord [of e w] by auto
  then show ?case using Cons by (simp add: sum_list_countWord)
qed

lemma foldl_sumSquares:
  "foldl (\<lambda>sum val. sum + val * val) (a::real) e = a + (\<Sum>x\<leftarrow>e. x * x)"
  by (induction e arbitrary: a) (simp_all add: add.assoc)

lemma sumSquares_sum_list: "sumSquares e = (\<Sum>x\<leftarrow>e. x * x)"
  by (simp add: sumSquares_def foldl_sumSquares)

lemma sumSquares_nonneg: "0 \<le> sumSquares e"
  unfolding sumSquares_sum_list by (rule sum_list_nonneg) auto

lemma sumSquares_pos:
  assumes "x \<in> set e" "x \<noteq> 0"
  shows "0 < sumSquares e"
  using assms unfolding sumSquares_sum_list
proof (induction e)
  case Nil
  then show ?case by simp
next
  case (Cons y ys)
  have nn: "0 \<le> (\<Sum>x\<leftarrow>ys. x * x)" by (rule sum_list_nonneg) auto
  show ?case
  proof (cases "x = y")
    case True
    then have "0 < y * y" using Cons.prems by (auto simp: zero_less_mult_iff)
    with nn show ?thesis by simp
  next
    case False
    then have "0 < (\<Sum>x\<leftarrow>ys. x * x)" using Cons by simp
    then show ?thesis by (simp add: add_nonneg_pos)
  qed
qed

lemma sumSquares_zero_iff: "sumSquares e = 0 \<longleftrightarrow> (\<forall>x\<in>set e. x = 0)"
proof
  assume "sumSquares e = 0"
  then show "\<forall>x\<in>set e. x = 0" using sumSquares_pos [of _ e] by force
next
  assume "\<forall>x\<in>set e. x = 0"
  then show "sumSquares e = 0" unfolding sumSquares_sum_list by (induction e) simp_all
qed

lemma sumSquares_scale: "sumSquares (map (\<lambda>val. val / n) e) = sumSquares e / (n * n)"
  unfolding sumSquares_sum_list
  by (induction e) (simp_all add: add_divide_distrib)

lemma wordCounts_sum_pos:
  "0 < sumSquares (foldl countWord (replicate 1536 0) (splitWhitespace s))"
proof -
  let ?e = "foldl countWord (replicate 1536 0) (splitWhitespace s)"
  have "sum_list ?e = real (length (splitWhitespace s))"
    by (simp add: sum_list_foldl_countWord sum_list_replicate)
  then have "0 < sum_list ?e" using splitWhitespace_nonempty [of s] by simp
  then have "\<not> (\<forall>x\<in>set ?e. x = 0)"
    by (metis sum_list_0 less_irrefl map_idI)
  then show ?thesis
    using sumSquares_zero_iff [of ?e] sumSquares_nonneg [of ?e] by linarith
qed


lemma createSimpleEmbedding_unit: "sumSquares (createSimpleEmbedding text) = 1"
proof -
  let ?e = "foldl countWord (replicate 1536 0) (splitWhitespace (toLowerCase text))"
  have pos: "0 < sumSquares ?e" by (rule wordCounts_sum_pos)
  then have "0 < sqrt (sumSquares ?e)" by simp
  then have "createSimpleEmbedding text = map (\<lambda>val. val / sqrt (sumSquares ?e)) ?e"
    by (simp add: createSimpleEmbedding_def Let_def)
  then show ?thesis using pos by (simp add: sumSquares_scale)
qed

lemma createSimpleEmbedding_nonneg: "\<forall>x\<in>set (createSimpleEmbedding text). 0 \<le> x"
proof -
  let ?e = "foldl countWord (replicate 1536 0) (splitWhitespace (toLowerCase text))"
  have "\<forall>x\<in>set ?e. 0 \<le> x" by (rule foldl_countWord_nonneg) simp
  then show ?thesis by (auto simp: createSimpleEmbedding_def Let_def)
qed

section \<open>Properties of the cosine similarity\<close>

lemma cosineLoop_sums:
  "length a = length b \<Longrightarrow>
   cosineLoop a b (d, na, nb) =
     (d + (\<Sum>(x, y)\<leftarrow>zip a b. x * y), na + (\<Sum>x\<leftarrow>a. x * x), nb + (\<Sum>y\<leftarrow>b. y * y))"
  by (induction a b arbitrary: d na nb rule: list_induct2) (simp_all add: add.assoc)

lemma cosineSimilarity_eq:
  "length a = length b \<Longrightarrow>
   cosineSimilarity a b =
     divide_number (\<Sum>(x, y)\<leftarrow>zip a b. x * y) (sqrt (sumSquares a) * sqrt (sumSquares b))"
  by (simp add: cosineSimilarity_def cosineLoop_sums sumSquares_sum_list)

text \<open>
  Without rounding, the similarity of two vectors of one length and non-zero norms lies
  between \<open>-1\<close> and 1 by the Cauchy-Schwarz inequality, and that of such a vector with
  itself is 1. The section on double-precision arithmetic shows what rounding makes of it.
\<close>

lemma two_times_le_sum:
  fixes u p q :: real
  assumes "u\<^sup>2 \<le> p * q" "0 \<le> p" "0 \<le> q"
  shows "2 * u \<le> p + q"
proof -
  have "0 \<le> (p - q)\<^sup>2" by simp
  then have "4 * (p * q) \<le> (p + q)\<^sup>2" by (simp add: power2_eq_square algebra_simps)
  moreover have "(2 * u)\<^sup>2 = 4 * u\<^sup>2" by (simp add: power2_eq_square)
  ultimately have "(2 * u)\<^sup>2 \<le> (p + q)\<^sup>2" using assms(1) by linarith
  then show ?thesis by (rule power2_le_imp_le) (use assms(2,3) in simp)
qed

lemma cauchy_step:
  fixes x y d A B :: real
  assumes "d\<^sup>2 \<le> A * B" "0 \<le> A" "0 \<le> B"
  shows "(x * y + d)\<^sup>2 \<le> (x * x + A) * (y * y + B)"
proof -
  have "(x * y)\<^sup>2 * d\<^sup>2 \<le> (x * y)\<^sup>2 * (A * B)"
    by (rule mult_left_mono) (use assms(1) in simp_all)
  then have "(x * y * d)\<^sup>2 \<le> (x * x * B) * (y * y * A)"
    by (simp add: power2_eq_square algebra_simps)
  then have "2 * (x * y * d) \<le> x * x * B + y * y * A"
    by (rule two_times_le_sum) (use assms(2,3) in simp_all)
  then show ?thesis using assms(1) by (simp add: power2_eq_square algebra_simps)
qed

lemma cauchy_schwarz_list:
  "length a = length b \<Longrightarrow>
   (\<Sum>(x, y)\<leftarrow>zip a b. x * y)\<^sup>2 \<le> sumSquares a * sumSquares (b :: real list)"
proof (induction a b rule: list_induct2)
  case Nil
  then show ?case by (simp add: sumSquares_sum_list)
next
  case (Cons x xs y ys)
  have "(x * y + (\<Sum>(x, y)\<leftarrow>zip xs ys. x * y))\<^sup>2
        \<le> (x * x + sumSquares xs) * (y * y + sumSquares ys)"
    by (rule cauchy_step) (use Cons.IH sumSquares_nonneg in simp_all)
  then show ?case by (simp add: sumSquares_sum_list)
qed

lemma dot_abs_le:
  assumes "length a = length b"
  shows "\<bar>\<Sum>(x, y)\<leftarrow>zip a b. x * y\<bar> \<le> sqrt (sumSquares a) * sqrt (sumSquares b)"
proof -
  have "sqrt ((\<Sum>(x, y)\<leftarrow>zip a b. x * y)\<^sup>2) \<le> sqrt (sumSquares a * sumSquares b)"
    using cauchy_schwarz_list [OF assms] by (simp only: real_sqrt_le_iff)
  then show ?thesis by (simp add: real_sqrt_mult)
qed

lemma dot_self: "(\<Sum>(x, y)\<leftarrow>zip a a. x * y) = sumSquares (a :: real list)"
  unfolding sumSquares_sum_list by (induction a) simp_all

lemma cosine_zero_norm:
  assumes "length a = length b" "l2norm a = 0 \<or> l2norm b = 0"
  shows "cosineSimilarity a b = NaN"
proof -
  have z: "sqrt (sumSquares a) * sqrt (sumSquares b) = 0"
    using assms(2) by (auto simp: l2norm_def)
  have "\<bar>\<Sum>(x, y)\<leftarrow>zip a b. x * y\<bar> \<le> 0"
    using dot_abs_le [OF assms(1)] unfolding z .
  then have "(\<Sum>(x, y)\<leftarrow>zip a b. x * y) = 0" by linarith
  with z show ?thesis by (simp add: cosineSimilarity_eq [OF assms(1)] divide_number_def)
qed

lemma cosine_bounded:
  assumes "length a = length b" "l2norm a \<noteq> 0" "l2norm b \<noteq> 0"
  shows "\<exists>r. cosineSimilarity a b = Num r \<and> - 1 \<le> r \<and> r \<le> 1"
proof -
  let ?d = "\<Sum>(x, y)\<leftarrow>zip a b. x * y"
  let ?n = "sqrt (sumSquares a) * sqrt (sumSquares b)"
  have nz: "?n \<noteq> 0" using assms(2,3) by (simp add: l2norm_def)
  moreover have "0 \<le> ?n" by (simp add: sumSquares_nonneg)
  ultimately have pos: "0 < ?n" by linarith
  have "\<bar>?d\<bar> \<le> ?n" by (rule dot_abs_le [OF assms(1)])
  then have "- 1 \<le> ?d / ?n" "?d / ?n \<le> 1"
    using pos by (simp_all add: pos_le_divide_eq pos_divide_le_eq)
  moreover have "cosineSimilarity a b = Num (?d / ?n)"
    using nz by (simp add: cosineSimilarity_eq [OF assms(1)] divide_number_def)
  ultimately show ?thesis by blast
qed

lemma cosine_self:
  assumes "l2norm a \<noteq> 0"
  shows "cosineSimilarity a a = Num 1"
proof -
  have "sumSquares a \<noteq> 0" using assms by (simp add: l2norm_def)
  then have "0 < sumSquares a" using sumSquares_nonneg [of a] by linarith
  then show ?thesis
    by (simp add: cosineSimilarity_eq dot_self divide_number_def)
qed

lemma l2norm_createSimpleEmbedding: "l2norm (createSimpleEmbedding text) = 1"
  by (simp add: l2norm_def createSimpleEmbedding_unit)

lemma createSimpleEmbedding_empty: "createSimpleEmbedding [] = 1 # replicate 1535 0"
proof -
  have r: "replicate 1536 (0::real) = 0 # replicate 1535 0"
    by (simp add: replicate_Suc [symmetric] del: replicate_Suc)
  have e: "foldl countWord (replicate 1536 0) (splitWhitespace (toLowerCase [])) = 1 # replicate 1535 0"
    by (simp add: splitWhitespace_def toLowerCase_def countWord_def simpleHash_def r
        del: replicate_Suc)
  have n: "sumSquares (1 # replicate 1535 0) = 1"
    by (simp add: sumSquares_sum_list sum_list_replicate del: replicate_Suc)
  show ?thesis
    unfolding createSimpleEmbedding_def Let_def e n by simp
qed

text \<open>
  Claim C2 at the empty string. The one piece of the empty string is the empty word; its
  hash is 0, so bucket 0 counts 1 and the norm is 1: the embedding of the empty string is
  the unit vector of bucket 0, not the zero vector.
\<close>

theorem embed_empty_string:
  "createSimpleEmbedding [] = 1 # replicate 1535 0 \<and>
   createSimpleEmbedding [] \<noteq> replicate 1536 0 \<and>
   l2norm (createSimpleEmbedding []) = 1"
proof -
  have "replicate 1536 (0::real) = 0 # replicate 1535 0"
    by (simp add: replicate_Suc [symmetric] del: replicate_Suc)
  then have "createSimpleEmbedding [] \<noteq> replicate 1536 0"
    by (simp add: createSimpleEmbedding_empty del: replicate_Suc)
  then show ?thesis
    using createSimpleEmbedding_empty l2norm_createSimpleEmbedding [of "[]"] by blast
qed

section \<open>Properties of the double-precision arithmetic\<close>

lemma roundHalfEven_near:
  assumes "\<bar>q - of_int k\<bar> < 1 / 2"
  shows "roundHalfEven q = k"
proof (cases "of_int k \<le> q")
  case True
  have "q < of_int k + 1" using assms by linarith
  with True have f: "\<lfloor>q\<rfloor> = k" by (rule floor_unique)
  have "q - of_int k < 1 / 2" using assms by linarith
  then show ?thesis by (simp add: roundHalfEven_def f)
next
  case False
  have "of_int (k - 1) \<le> q" "q < of_int (k - 1) + 1" using assms False by auto
  then have f: "\<lfloor>q\<rfloor> = k - 1" by (rule floor_unique)
  have "\<not> q - of_int (k - 1) < 1 / 2" "q - of_int (k - 1) > 1 / 2"
    using assms False by auto
  then show ?thesis by (simp add: roundHalfEven_def f Let_def)
qed

lemma roundDouble_near:
  fixes x :: real and k e :: int
  assumes "2 powi e \<le> \<bar>x\<bar>" "\<bar>x\<bar> < 2 powi (e + 1)" "- 1022 \<le> e" "e \<le> 1022"
    and "\<bar>x - of_int k * 2 powi (e - 52)\<bar> < 2 powi (e - 53)"
  shows "roundDouble x = Num (of_int k * 2 powi (e - 52))"
proof -
  have pos: "0 < \<bar>x\<bar>" using assms(1) by (smt (verit) zero_less_power_int)
  then have x0: "x \<noteq> 0" by simp
  have "(2::real) powi (e + 1) \<le> 2 powi 1023"
    using assms(4) by (intro power_int_increasing) simp_all
  also have "\<dots> < 2 ^ 1024 - 2 ^ 970" by simp
  finally have small: "\<not> \<bar>x\<bar> \<ge> 2 ^ 1024 - 2 ^ 970" using assms(2) by linarith
  have p1: "(2::real) powr of_int e = 2 powi e"
    by (rule powr_real_of_int') simp_all
  have "(2::real) powr of_int (e + 1) = 2 powi (e + 1)"
    by (rule powr_real_of_int') simp_all
  then have p2: "(2::real) powr (of_int e + 1) = 2 powi (e + 1)" by simp
  have "2 powr of_int e \<le> \<bar>x\<bar>" "\<bar>x\<bar> < 2 powr (of_int e + 1)"
    unfolding p1 p2 using assms(1,2) by simp_all
  then have fl: "\<lfloor>log 2 \<bar>x\<bar>\<rfloor> = e"
    using pos by (simp add: floor_log_eq_powr_iff)
  have ulp: "(2::real) powi (e - 52) > 0" by simp
  have half: "(2::real) powi (e - 53) = 2 powi (e - 52) / 2"
    by (simp add: power_int_diff)
  have "\<bar>x / 2 powi (e - 52) - of_int k\<bar> = \<bar>x - of_int k * 2 powi (e - 52)\<bar> / 2 powi (e - 52)"
    using ulp by (simp add: field_simps abs_divide)
  also have "\<dots> < 1 / 2"
    using assms(5) ulp unfolding half by (simp add: field_simps)
  finally have "roundHalfEven (x / 2 powi (e - 52)) = k" by (rule roundHalfEven_near)
  then show ?thesis
    using x0 small assms(3) by (simp add: roundDouble_def fl Let_def max_def)
qed













lemma roundDouble_dTwoSquares_exact: "roundDouble dTwoSquares = Num dTwoSquares"
  using roundDouble_near [of "- 1" dTwoSquares 6004799503160663]
  by (simp add: dTwoSquares_def)




























section \<open>Properties of the search\<close>

lemma exampleChunk_key: "chunkKey exampleChunk = ''a.ts:1''"
  by code_simp














lemma search_empty:
  assumes "codeChunks st = []"
  shows "searchCodebase engineSort fuseSearch query limit st = (Inr [], st)"
  using assms by (simp add: searchCodebase_def)





lemma indexFiles_unreadable:
  "\<forall>f\<in>set files. snd f = None \<Longrightarrow> indexFiles files st = st"
  by (induction files st rule: indexFiles.induct) simp_all

subsection \<open>What a build stores\<close>













text \<open>
  Claim C8. A search on an index with no chunks returns the empty sequence and no error,
  whatever the query, the limit and the fuzzy matcher. The state after the constructor
  has no chunks, and so has the state after a build over no files or over files of which
  none can be read.
\<close>

theorem search_empty_index:
  "(codeChunks st = [] \<longrightarrow>
      searchCodebase engineSort fuseSearch query limit st = (Inr [], st)) \<and>
   searchCodebase engineSort fuseSearch query limit newFileSystemTools
     = (Inr [], newFileSystemTools) \<and>
   indexCodebase (Inr []) st0 = Inr newFileSystemTools \<and>
   ((\<forall>f\<in>set files. snd f = None) \<longrightarrow> indexCodebase (Inr files) st0 = Inr newFileSystemTools)"
proof (intro conjI impI)
  assume "codeChunks st = []"
  then show "searchCodebase engineSort fuseSearch query limit st = (Inr [], st)"
    by (rule search_empty)
next
  show "searchCodebase engineSort fuseSearch query limit newFileSystemTools
      = (Inr [], newFileSystemTools)"
    by (rule search_empty) (simp add: newFileSystemTools_def)
next
  show "indexCodebase (Inr []) st0 = Inr newFileSystemTools"
    by (simp add: indexCodebase_def newFileSystemTools_def)
next
  assume "\<forall>f\<in>set files. snd f = None"
  then show "indexCodebase (Inr files) st0 = Inr newFileSystemTools"
    by (simp add: indexCodebase_def newFileSystemTools_def indexFiles_unreadable)
qed

theorem search_empty_index_witness:
  "codeChunks newFileSystemTools = [] \<and>
   searchCodebase keepOrder throwingMatcher ''query'' 10 newFileSystemTools
     = (Inr [], newFileSystemTools) \<and>
   snd (''b.ts'', None :: string option) = None \<and>
   indexCodebase (Inr [(''b.ts'', None)]) zeroVectorIndex = Inr newFileSystemTools"
  using search_empty_index [where st = newFileSystemTools and engineSort = keepOrder
      and fuseSearch = throwingMatcher and query = "''query''" and limit = 10
      and ?st0.0 = zeroVectorIndex and files = "[(''b.ts'', None)]"]
  by (simp add: newFileSystemTools_def)



text \<open>
  Claim C10. A search returns the state of the index as it found it: the chunks and the
  stored vectors are the same after the call as before, on every path.
\<close>

theorem search_keeps_index:
  "snd (searchCodebase engineSort fuseSearch query limit st) = st \<and>
   codeChunks (snd (searchCodebase engineSort fuseSearch query limit st)) = codeChunks st \<and>
   embeddings (snd (searchCodebase engineSort fuseSearch query limit st)) = embeddings st"
  by (simp add: searchCodebase_def Let_def)

theorem search_keeps_index_witness:
  "snd (searchCodebase keepOrder matchEveryChunk ''hello'' 10 zeroVectorIndex) = zeroVectorIndex \<and>
   snd (searchCodebase keepOrder matchEveryChunk ''hello'' 10 noVectorIndex) = noVectorIndex \<and>
   snd (searchCodebase keepOrder throwingMatcher ''hello'' 10 noVectorIndex) = noVectorIndex"
  using search_keeps_index [of keepOrder matchEveryChunk "''hello''" 10 zeroVectorIndex]
    search_keeps_index [of keepOrder matchEveryChunk "''hello''" 10 noVectorIndex]
    search_keeps_index [of keepOrder throwingMatcher "''hello''" 10 noVectorIndex]
  by blast

section \<open>Properties of \<^verbatim>\<open>grep\<close>\<close>

text \<open>
  Claim C5 at a file of the two lines \<^verbatim>\<open>xxxx todo\<close> and \<^verbatim>\<open>todo\<close>, searched for
  \<^verbatim>\<open>TODO\<close>. Both lines match the term: the second does when the expression is tested
  on it with \<^verbatim>\<open>lastIndex\<close> 0. But the match in the first line leaves \<^verbatim>\<open>lastIndex\<close> at
  9, beyond the end of the second line, so the test of the second line fails and the
  result holds the first line only.
\<close>

theorem grep_skips_matching_line:
  "splitOn newline todoFile = [''xxxx todo'', ''todo''] \<and>
   regexTest (literalExec ''TODO'') ''xxxx todo'' 0 = (True, 9) \<and>
   regexTest (literalExec ''TODO'') ''todo'' 0 = (True, 4) \<and>
   regexTest (literalExec ''TODO'') ''todo'' 9 = (False, 0) \<and>
   grep literalRegExp ''TODO'' (Inr [(''a.ts'', Some todoFile)]) =
     Inr [\<lparr>file_result = ''a.ts'', line = 1, content_result = ''xxxx todo'', score = None\<rparr>]"
  by code_simp

section \<open>Properties of the tool-dispatch loop\<close>

lemma respondTo_name: "\<exists>r. respondTo toolSet fc = FunctionResponse (fst fc) r"
  by (simp add: respondTo_def split: sum.splits thrown.splits)

lemma respondTo_unknown:
  "fst fc \<notin> set toolNames \<Longrightarrow>
   respondTo toolSet fc = FunctionResponse (fst fc) (ErrorMessage (''Unknown tool: '' @ fst fc))"
  by (simp add: respondTo_def executeToolCall_def)

lemma respondTo_tagged:
  "\<exists>r. respondTo toolSet fc = FunctionResponse (fst fc) r \<and>
       (fst fc \<notin> set toolNames \<longrightarrow> r = ErrorMessage (''Unknown tool: '' @ fst fc))"
  using respondTo_name [of toolSet fc] respondTo_unknown [of fc toolSet] by auto

lemma responseTurn_parts:
  "length (parts (responseTurn toolSet reply)) = length (functionCallsOf (parts reply))"
  "i < length (functionCallsOf (parts reply)) \<Longrightarrow>
     \<exists>r. parts (responseTurn toolSet reply) ! i
            = FunctionResponse (fst (functionCallsOf (parts reply) ! i)) r \<and>
         (fst (functionCallsOf (parts reply) ! i) \<notin> set toolNames \<longrightarrow>
            r = ErrorMessage (''Unknown tool: '' @ fst (functionCallsOf (parts reply) ! i)))"
  using respondTo_tagged [of toolSet "functionCallsOf (parts reply) ! i"]
  by (simp_all add: responseTurn_def)

lemma dispatch_calls:
  assumes "model (history a) = Inr (Some reply)" "functionCallsOf (parts reply) \<noteq> []"
  shows "queries (snd (generateResponseWithTools model toolSet a)) =
           queries a @ [history a, history a @ [reply, responseTurn toolSet reply]]"
    and "take (length (history a) + 2) (history (snd (generateResponseWithTools model toolSet a))) =
           history a @ [reply, responseTurn toolSet reply]"
  using assms
  by (simp_all add: generateResponseWithTools_def responseTurn_def Let_def
      split: sum.splits option.splits)

lemma dispatch_final:
  assumes "model (history a) = Inr (Some reply)" "functionCallsOf (parts reply) \<noteq> []"
    "model (history a @ [reply, responseTurn toolSet reply]) = Inr (Some finalContent)"
  shows "generateResponseWithTools model toolSet a =
           (orElse (textOf (parts finalContent)) ''No final text response.'',
            \<lparr>history = history a @ [reply, responseTurn toolSet reply, finalContent],
             queries = queries a @ [history a, history a @ [reply, responseTurn toolSet reply]]\<rparr>)"
  using assms by (simp add: generateResponseWithTools_def responseTurn_def Let_def)

lemma dispatch_text:
  assumes "model (history a) = Inr (Some reply)" "functionCallsOf (parts reply) = []"
  shows "snd (generateResponseWithTools model toolSet a) =
           \<lparr>history = history a @ [reply], queries = queries a @ [history a]\<rparr>"
  using assms by (simp add: generateResponseWithTools_def Let_def)

text \<open>
  Claim C6, as the code has it. When the first reply of the model holds \<open>N \<ge> 1\<close> tool
  calls, the loop appends the reply and then one turn that holds exactly \<open>N\<close> responses,
  the \<open>i\<close>-th under the name of the \<open>i\<close>-th call and an error response \<^verbatim>\<open>Unknown tool\<close>
  for a name that is not a tool; it then asks the model exactly once more, with that turn
  at the end of the conversation. When the first reply holds no tool call, the loop
  appends the reply only: no turn of responses, and no further question to the model. The
  second reply is appended as it is and its text is returned: the tool calls that it
  holds are not run and get no response.
\<close>

theorem dispatch_completeness:
  "(model (history a) = Inr (Some reply) \<and> functionCallsOf (parts reply) \<noteq> [] \<longrightarrow>
      queries (snd (generateResponseWithTools model toolSet a)) =
        queries a @ [history a, history a @ [reply, responseTurn toolSet reply]] \<and>
      take (length (history a) + 2) (history (snd (generateResponseWithTools model toolSet a))) =
        history a @ [reply, responseTurn toolSet reply] \<and>
      role (responseTurn toolSet reply) = ''user'' \<and>
      length (parts (responseTurn toolSet reply)) = length (functionCallsOf (parts reply)) \<and>
      (\<forall>i<length (functionCallsOf (parts reply)).
         \<exists>r. parts (responseTurn toolSet reply) ! i
               = FunctionResponse (fst (functionCallsOf (parts reply) ! i)) r \<and>
             (fst (functionCallsOf (parts reply) ! i) \<notin> set toolNames \<longrightarrow>
                r = ErrorMessage (''Unknown tool: '' @ fst (functionCallsOf (parts reply) ! i))))) \<and>
   (model (history a) = Inr (Some reply) \<and> functionCallsOf (parts reply) = [] \<longrightarrow>
      snd (generateResponseWithTools model toolSet a) =
        \<lparr>history = history a @ [reply], queries = queries a @ [history a]\<rparr>) \<and>
   (model (history a) = Inr (Some reply) \<and> functionCallsOf (parts reply) \<noteq> [] \<and>
    model (history a @ [reply, responseTurn toolSet reply]) = Inr (Some finalContent) \<longrightarrow>
      generateResponseWithTools model toolSet a =
        (orElse (textOf (parts finalContent)) ''No final text response.'',
         \<lparr>history = history a @ [reply, responseTurn toolSet reply, finalContent],
          queries = queries a @ [history a, history a @ [reply, responseTurn toolSet reply]]\<rparr>))"
proof (intro conjI impI allI)
  assume h: "model (history a) = Inr (Some reply) \<and> functionCallsOf (parts reply) \<noteq> []"
  then show "queries (snd (generateResponseWithTools model toolSet a)) =
        queries a @ [history a, history a @ [reply, responseTurn toolSet reply]]"
    using dispatch_calls(1) by blast
  from h show "take (length (history a) + 2)
        (history (snd (generateResponseWithTools model toolSet a))) =
        history a @ [reply, responseTurn toolSet reply]"
    using dispatch_calls(2) by blast
  show "role (responseTurn toolSet reply) = ''user''" by (simp add: responseTurn_def)
  show "length (parts (responseTurn toolSet reply)) = length (functionCallsOf (parts reply))"
    by (rule responseTurn_parts(1))
  fix i assume "i < length (functionCallsOf (parts reply))"
  then show "\<exists>r. parts (responseTurn toolSet reply) ! i
               = FunctionResponse (fst (functionCallsOf (parts reply) ! i)) r \<and>
             (fst (functionCallsOf (parts reply) ! i) \<notin> set toolNames \<longrightarrow>
                r = ErrorMessage (''Unknown tool: '' @ fst (functionCallsOf (parts reply) ! i)))"
    by (rule responseTurn_parts(2))
next
  assume "model (history a) = Inr (Some reply) \<and> functionCallsOf (parts reply) = []"
  then show "snd (generateResponseWithTools model toolSet a) =
        \<lparr>history = history a @ [reply], queries = queries a @ [history a]\<rparr>"
    using dispatch_text by blast
next
  assume "model (history a) = Inr (Some reply) \<and> functionCallsOf (parts reply) \<noteq> [] \<and>
    model (history a @ [reply, responseTurn toolSet reply]) = Inr (Some finalContent)"
  then show "generateResponseWithTools model toolSet a =
        (orElse (textOf (parts finalContent)) ''No final text response.'',
         \<lparr>history = history a @ [reply, responseTurn toolSet reply, finalContent],
          queries = queries a @ [history a, history a @ [reply, responseTurn toolSet reply]]\<rparr>)"
    using dispatch_final by blast
qed

lemma callsReply_calls:
  "functionCallsOf (parts callsReply) = [(''readFile'', [(''filePath'', ''a.ts'')]), (''deleteFile'', [])]"
  by (simp add: callsReply_def)

lemma callsReply_responses:
  "responseTurn echoTools callsReply =
     \<lparr>role = ''user'',
      parts = [FunctionResponse ''readFile'' (Result ''readFile''),
               FunctionResponse ''deleteFile'' (ErrorMessage ''Unknown tool: deleteFile'')]\<rparr>"
  by (simp add: responseTurn_def callsReply_calls respondTo_def executeToolCall_def
      toolNames_def echoTools_def)

theorem dispatch_completeness_witness:
  "callingModel (history startAgent) = Inr (Some callsReply) \<and>
   functionCallsOf (parts callsReply) \<noteq> [] \<and>
   callingModel (history startAgent @ [callsReply, responseTurn echoTools callsReply])
     = Inr (Some textReply) \<and>
   generateResponseWithTools callingModel echoTools startAgent =
     (''done'',
      \<lparr>history = [userTurn, callsReply,
         \<lparr>role = ''user'',
          parts = [FunctionResponse ''readFile'' (Result ''readFile''),
                   FunctionResponse ''deleteFile'' (ErrorMessage ''Unknown tool: deleteFile'')]\<rparr>,
         textReply],
       queries = [[userTurn],
         [userTurn, callsReply,
          \<lparr>role = ''user'',
           parts = [FunctionResponse ''readFile'' (Result ''readFile''),
                    FunctionResponse ''deleteFile'' (ErrorMessage ''Unknown tool: deleteFile'')]\<rparr>]]\<rparr>) \<and>
   textOnlyModel (history startAgent) = Inr (Some textReply) \<and>
   functionCallsOf (parts textReply) = [] \<and>
   snd (generateResponseWithTools textOnlyModel echoTools startAgent) =
     \<lparr>history = [userTurn, textReply], queries = [[userTurn]]\<rparr>"
proof -
  have c: "callingModel (history startAgent) = Inr (Some callsReply)"
    by (simp add: callingModel_def startAgent_def)
  have f: "callingModel (history startAgent @ [callsReply, responseTurn echoTools callsReply])
     = Inr (Some textReply)"
    by (simp add: callingModel_def startAgent_def)
  have t: "textOnlyModel (history startAgent) = Inr (Some textReply)"
    "functionCallsOf (parts textReply) = []"
    by (simp_all add: textOnlyModel_def textReply_def)
  have s: "history startAgent = [userTurn]" "queries startAgent = []"
    by (simp_all add: startAgent_def)
  have ne: "functionCallsOf (parts callsReply) \<noteq> []"
    by (simp add: callsReply_calls)
  have d: "orElse (textOf (parts textReply)) ''No final text response.'' = ''done''"
    by (simp add: orElse_def textReply_def)
  have "generateResponseWithTools callingModel echoTools startAgent =
      (orElse (textOf (parts textReply)) ''No final text response.'',
       \<lparr>history = history startAgent @ [callsReply, responseTurn echoTools callsReply, textReply],
        queries = queries startAgent @ [history startAgent,
          history startAgent @ [callsReply, responseTurn echoTools callsReply]]\<rparr>)"
    using dispatch_completeness [where model = callingModel and a = startAgent
        and reply = callsReply and toolSet = echoTools and finalContent = textReply] c ne f
    by blast
  then have q: "generateResponseWithTools callingModel echoTools startAgent =
     (''done'',
      \<lparr>history = [userTurn, callsReply,
         \<lparr>role = ''user'',
          parts = [FunctionResponse ''readFile'' (Result ''readFile''),
                   FunctionResponse ''deleteFile'' (ErrorMessage ''Unknown tool: deleteFile'')]\<rparr>,
         textReply],
       queries = [[userTurn],
         [userTurn, callsReply,
          \<lparr>role = ''user'',
           parts = [FunctionResponse ''readFile'' (Result ''readFile''),
                    FunctionResponse ''deleteFile'' (ErrorMessage ''Unknown tool: deleteFile'')]\<rparr>]]\<rparr>)"
    unfolding callsReply_responses s d by simp
  have "snd (generateResponseWithTools textOnlyModel echoTools startAgent) =
      \<lparr>history = history startAgent @ [textReply],
       queries = queries startAgent @ [history startAgent]\<rparr>"
    using dispatch_completeness [where model = textOnlyModel and a = startAgent
        and reply = textReply and toolSet = echoTools and finalContent = textReply] t
    by blast
  then have r: "snd (generateResponseWithTools textOnlyModel echoTools startAgent) =
      \<lparr>history = [userTurn, textReply], queries = [[userTurn]]\<rparr>"
    unfolding s by simp
  show ?thesis using c ne f q t r by blast
qed

text \<open>
  Claim C6 as stated fails twice. For a reply with no tool call the loop appends no turn
  of responses and asks the model no further question. And when the second reply holds
  tool calls, here two, the loop appends that reply and stops: its calls get no response,
  and the conversation ends with them.
\<close>

theorem dispatch_completeness_counterexample:
  "textOnlyModel (history startAgent) = Inr (Some textReply) \<and>
   length (functionCallsOf (parts textReply)) = 0 \<and>
   history (snd (generateResponseWithTools textOnlyModel echoTools startAgent)) =
     [userTurn, textReply] \<and>
   queries (snd (generateResponseWithTools textOnlyModel echoTools startAgent)) = [[userTurn]] \<and>
   length (functionCallsOf (parts callsReply)) = 2 \<and>
   history (snd (generateResponseWithTools alwaysCallingModel echoTools startAgent)) =
     [userTurn, callsReply, responseTurn echoTools callsReply, callsReply] \<and>
   length (queries (snd (generateResponseWithTools alwaysCallingModel echoTools startAgent))) = 2"
proof -
  have t: "textOnlyModel (history startAgent) = Inr (Some textReply)"
    "functionCallsOf (parts textReply) = []"
    by (simp_all add: textOnlyModel_def textReply_def)
  have one: "history (snd (generateResponseWithTools textOnlyModel echoTools startAgent)) =
       [userTurn, textReply]"
    "queries (snd (generateResponseWithTools textOnlyModel echoTools startAgent)) = [[userTurn]]"
    using dispatch_text [of textOnlyModel startAgent textReply echoTools, OF t]
    by (simp_all add: startAgent_def)
  have c: "alwaysCallingModel (history startAgent) = Inr (Some callsReply)"
    "alwaysCallingModel (history startAgent @ [callsReply, responseTurn echoTools callsReply])
       = Inr (Some callsReply)"
    by (simp_all add: alwaysCallingModel_def)
  have ne: "functionCallsOf (parts callsReply) \<noteq> []" by (simp add: callsReply_calls)
  have two: "history (snd (generateResponseWithTools alwaysCallingModel echoTools startAgent)) =
       [userTurn, callsReply, responseTurn echoTools callsReply, callsReply]"
    "length (queries (snd (generateResponseWithTools alwaysCallingModel echoTools startAgent))) = 2"
    using dispatch_final [of alwaysCallingModel startAgent callsReply echoTools callsReply,
        OF c(1) ne c(2)]
    by (simp_all add: startAgent_def)
  show ?thesis using t one two by (simp add: callsReply_calls)
qed

end
